theory Spec2Isabelle
  imports Complex_Main "HOL-Library.AList"
begin

section \<open>Budget tracker: the domain model of app.py\<close>

text \<open>
  The program keeps amounts as Python numbers. They are modelled as exact reals, so the
  tolerance \<open>1e-9\<close> is the real number \<open>1 / 10 ^ 9\<close> and sums do not round.
  A Python \<open>dict\<close> is an association list in insertion order: \<open>AList.update\<close> overwrites
  the entry of a present key in place and appends an absent one, as \<open>d[k] = v\<close> does;
  \<open>AList.delete\<close> is \<open>del d[k]\<close>; \<open>map_of\<close> is the lookup.
\<close>

subsection \<open>Helper functions\<close>

text \<open>
  The five icons returned by \<open>calc_status\<close>, by the names the program's comments give
  them: the information sign, the check mark (safe), the warning sign (alert), the orange
  diamond (warning) and the stop sign (danger).
\<close>

datatype status = Info | Safe | Alert | Warning | Danger

definition calc_status :: "real \<Rightarrow> real \<Rightarrow> status" where
  "calc_status spent limit =
     (if limit \<le> 0 then Info
      else let ratio = spent / limit in
        if ratio < 50 / 100 then Safe
        else if ratio < 80 / 100 then Alert
        else if ratio < 100 / 100 then Warning
        else Danger)"

text \<open>
  \<open>str.strip()\<close> with no argument removes leading and trailing whitespace. Strings are
  byte strings here, and the whitespace characters are those of ASCII for which Python's
  \<open>str.isspace\<close> holds.
\<close>

definition isspace :: "char \<Rightarrow> bool" where
  "isspace c = (c \<in> set [CHR '' '', CHR 0x09, CHR 0x0A, CHR 0x0B, CHR 0x0C, CHR 0x0D,
                          CHR 0x1C, CHR 0x1D, CHR 0x1E, CHR 0x1F])"

definition strip :: "string \<Rightarrow> string" where
  "strip s = rev (dropWhile isspace (rev (dropWhile isspace s)))"

text \<open>\<open>k in d\<close> for a dictionary \<open>d\<close>.\<close>

definition has_key :: "('k \<times> 'v) list \<Rightarrow> 'k \<Rightarrow> bool" where
  "has_key al k = (k \<in> set (map fst al))"

subsection \<open>Data model\<close>

text \<open>The field \<open>limit_type\<close> holds one of the two strings "percent" and "fixed".\<close>

datatype limit_kind = Percent | Fixed

record Category =
  name :: string
  limit_type :: limit_kind
  val :: real

definition calc_limit :: "Category \<Rightarrow> real \<Rightarrow> real" where
  "calc_limit c monthly_budget =
     (if limit_type c = Percent then monthly_budget * (val c / 100) else val c)"

text \<open>A calendar date: year, month, day.\<close>

type_synonym dt_date = "nat \<times> nat \<times> nat"

record Expense =
  expense_id :: int
  d :: dt_date
  amount :: real
  category :: string
  description :: string

record BudgetMonth =
  month_key :: string
  budget :: "real option"
  categories :: "(string \<times> Category) list"
  expenses :: "Expense list"
  next_expense_id :: int

definition BudgetMonth_init :: "string \<Rightarrow> BudgetMonth" where
  "BudgetMonth_init key =
     \<lparr>month_key = key, budget = None, categories = [], expenses = [], next_expense_id = 1\<rparr>"

definition is_setup :: "BudgetMonth \<Rightarrow> bool" where
  "is_setup m = (budget m \<noteq> None \<and> length (categories m) > 0)"

definition set_budget :: "BudgetMonth \<Rightarrow> real \<Rightarrow> BudgetMonth" where
  "set_budget m new_budget = m\<lparr>budget := Some new_budget\<rparr>"

definition add_category :: "BudgetMonth \<Rightarrow> Category \<Rightarrow> bool \<times> BudgetMonth" where
  "add_category m cat =
     (let nm = strip (name cat) in
      if nm = [] \<or> has_key (categories m) nm then (False, m)
      else (True, m\<lparr>categories := AList.update nm cat (categories m)\<rparr>))"

definition update_category_limit ::
  "BudgetMonth \<Rightarrow> string \<Rightarrow> limit_kind \<Rightarrow> real \<Rightarrow> bool \<times> BudgetMonth" where
  "update_category_limit m nm lt v =
     (if \<not> has_key (categories m) nm then (False, m)
      else (True, m\<lparr>categories :=
              AList.map_entry nm (\<lambda>c. c\<lparr>limit_type := lt, val := v\<rparr>) (categories m)\<rparr>))"

definition category_has_expenses :: "BudgetMonth \<Rightarrow> string \<Rightarrow> bool" where
  "category_has_expenses m nm = list_ex (\<lambda>e. category e = nm) (expenses m)"

text \<open>The three messages of \<open>delete_category\<close>; the last one quotes the deleted name.\<close>

datatype delete_msg = CategoryNotFound | DeletionCancelled | DeletedSuccessfully string

definition delete_category ::
  "BudgetMonth \<Rightarrow> string \<Rightarrow> bool \<Rightarrow> (bool \<times> delete_msg) \<times> BudgetMonth" where
  "delete_category m nm move_to_other =
     (if \<not> has_key (categories m) nm then ((False, CategoryNotFound), m)
      else if category_has_expenses m nm then
        (if \<not> move_to_other then ((False, DeletionCancelled), m)
         else
           let cats1 = (if \<not> has_key (categories m) ''Other''
                        then AList.update ''Other''
                               \<lparr>name = ''Other'', limit_type = Fixed, val = 10 ^ 18\<rparr>
                               (categories m)
                        else categories m);
               exps1 = map (\<lambda>e. if category e = nm then e\<lparr>category := ''Other''\<rparr> else e)
                           (expenses m)
           in ((True, DeletedSuccessfully nm),
               m\<lparr>categories := AList.delete nm cats1, expenses := exps1\<rparr>))
      else ((True, DeletedSuccessfully nm),
            m\<lparr>categories := AList.delete nm (categories m)\<rparr>))"

definition add_expense ::
  "BudgetMonth \<Rightarrow> dt_date \<Rightarrow> real \<Rightarrow> string \<Rightarrow> string \<Rightarrow> Expense \<times> BudgetMonth" where
  "add_expense m dt amt cat_name desc =
     (let exp = \<lparr>expense_id = next_expense_id m, d = dt, amount = amt,
                 category = cat_name, description = strip desc\<rparr>
      in (exp, m\<lparr>expenses := expenses m @ [exp],
                 next_expense_id := next_expense_id m + 1\<rparr>))"

text \<open>The loop of \<open>delete_expense_by_id\<close>: pop the first expense with the id, if any.\<close>

fun pop_by_id :: "int \<Rightarrow> Expense list \<Rightarrow> Expense list option" where
  "pop_by_id i [] = None"
| "pop_by_id i (e # es) =
     (if expense_id e = i then Some es else map_option (Cons e) (pop_by_id i es))"

definition delete_expense_by_id :: "BudgetMonth \<Rightarrow> int \<Rightarrow> bool \<times> BudgetMonth" where
  "delete_expense_by_id m i =
     (case pop_by_id i (expenses m) of
        None \<Rightarrow> (False, m)
      | Some es \<Rightarrow> (True, m\<lparr>expenses := es\<rparr>))"

definition get_expense_by_id :: "BudgetMonth \<Rightarrow> int \<Rightarrow> Expense option" where
  "get_expense_by_id m i = find (\<lambda>e. expense_id e = i) (expenses m)"

definition total_expenses :: "BudgetMonth \<Rightarrow> real" where
  "total_expenses m = sum_list (map amount (expenses m))"

text \<open>\<open>totals.get(k, 0.0)\<close>.\<close>

definition get_or_zero :: "(string \<times> real) list \<Rightarrow> string \<Rightarrow> real" where
  "get_or_zero totals k = (case map_of totals k of None \<Rightarrow> 0 | Some v \<Rightarrow> v)"

definition total_by_category :: "BudgetMonth \<Rightarrow> (string \<times> real) list" where
  "total_by_category m =
     fold (\<lambda>e totals. AList.update (category e) (get_or_zero totals (category e) + amount e) totals)
          (expenses m) []"

text \<open>
  The dictionary \<open>counts\<close> of \<open>status_summary_counts\<close> has four keys: the icons of safe,
  alert, warning and danger. The information icon is not a key.
\<close>

record status_counts =
  safe_n :: nat
  alert_n :: nat
  warning_n :: nat
  danger_n :: nat

text \<open>\<open>if icon in counts: counts[icon] += 1\<close>.\<close>

fun bump :: "status \<Rightarrow> status_counts \<Rightarrow> status_counts" where
  "bump Info counts = counts"
| "bump Safe counts = counts\<lparr>safe_n := safe_n counts + 1\<rparr>"
| "bump Alert counts = counts\<lparr>alert_n := alert_n counts + 1\<rparr>"
| "bump Warning counts = counts\<lparr>warning_n := warning_n counts + 1\<rparr>"
| "bump Danger counts = counts\<lparr>danger_n := danger_n counts + 1\<rparr>"

text \<open>The icon the loop body computes for one item of \<open>categories\<close>.\<close>

definition item_status :: "BudgetMonth \<Rightarrow> real \<Rightarrow> string \<times> Category \<Rightarrow> status" where
  "item_status m b item =
     (let limit = calc_limit (snd item) b;
          spent = get_or_zero (total_by_category m) (fst item)
      in calc_status spent limit)"

definition status_summary_counts :: "BudgetMonth \<Rightarrow> status_counts" where
  "status_summary_counts m =
     (let counts = \<lparr>safe_n = 0, alert_n = 0, warning_n = 0, danger_n = 0\<rparr> in
      case budget m of
        None \<Rightarrow> counts
      | Some b \<Rightarrow> fold (\<lambda>item cs. bump (item_status m b item) cs) (categories m) counts)"

subsection \<open>The registry of months\<close>

record BudgetTrackerApp =
  months :: "(string \<times> BudgetMonth) list"
  default_categories :: "Category list"

definition BudgetTrackerApp_init :: BudgetTrackerApp where
  "BudgetTrackerApp_init =
     \<lparr>months = [],
      default_categories =
        [\<lparr>name = ''Expenses'', limit_type = Percent, val = 50\<rparr>,
         \<lparr>name = ''Entertainment'', limit_type = Percent, val = 10\<rparr>,
         \<lparr>name = ''Charity'', limit_type = Percent, val = 10\<rparr>,
         \<lparr>name = ''Savings'', limit_type = Percent, val = 10\<rparr>,
         \<lparr>name = ''Investment'', limit_type = Percent, val = 10\<rparr>,
         \<lparr>name = ''Education'', limit_type = Percent, val = 10\<rparr>]\<rparr>"

text \<open>
  \<open>get_month\<close> returns the object stored under the key; the result is the stored value
  (\<open>None\<close> would be the \<open>KeyError\<close> of \<open>self.months[month_key]\<close>) and the registry after
  the call.
\<close>

definition get_month :: "BudgetTrackerApp \<Rightarrow> string \<Rightarrow> BudgetMonth option \<times> BudgetTrackerApp" where
  "get_month app key =
     (let app1 = (if \<not> has_key (months app) key
                  then app\<lparr>months := AList.update key (BudgetMonth_init key) (months app)\<rparr>
                  else app)
      in (map_of (months app1) key, app1))"

subsection \<open>Sequences of ledger operations\<close>

text \<open>
  A caller's sequence of \<open>add_expense\<close> and \<open>delete_expense_by_id\<close> calls on one month.
  Running it threads the month through the calls and records, in order, the id of the
  expense each \<open>add_expense\<close> returned.
\<close>

datatype expense_op = AddExpense dt_date real string string | DeleteExpenseById int

fun is_add :: "expense_op \<Rightarrow> bool" where
  "is_add (AddExpense dt amt cat_name desc) = True"
| "is_add (DeleteExpenseById i) = False"

fun apply_expense_op :: "expense_op \<Rightarrow> int list \<times> BudgetMonth \<Rightarrow> int list \<times> BudgetMonth" where
  "apply_expense_op (AddExpense dt amt cat_name desc) (ids, m) =
     (ids @ [expense_id (fst (add_expense m dt amt cat_name desc))],
      snd (add_expense m dt amt cat_name desc))"
| "apply_expense_op (DeleteExpenseById i) (ids, m) = (ids, snd (delete_expense_by_id m i))"

definition run_expense_ops :: "expense_op list \<Rightarrow> BudgetMonth \<Rightarrow> int list \<times> BudgetMonth" where
  "run_expense_ops ops m = fold apply_expense_op ops ([], m)"

text \<open>A caller's sequence of \<open>get_month\<close> calls on one registry.\<close>

definition get_months :: "string list \<Rightarrow> BudgetTrackerApp \<Rightarrow> BudgetTrackerApp" where
  "get_months keys app = fold (\<lambda>key a. snd (get_month a key)) keys app"

text \<open>
  What every step keeps: the ids handed out so far are 1 up to the counter minus one,
  and the stored expenses carry distinct ids among them.
\<close>

definition ids_ok :: "int list \<times> BudgetMonth \<Rightarrow> bool" where
  "ids_ok s =
     (1 \<le> next_expense_id (snd s) \<and>
      fst s = [1 .. next_expense_id (snd s) - 1] \<and>
      distinct (map expense_id (expenses (snd s))) \<and>
      set (map expense_id (expenses (snd s))) \<subseteq> set (fst s))"

subsection \<open>The callers in \<open>main\<close>\<close>

text \<open>
  The forms of \<open>main\<close> that validate input and then call the operations above. Each is
  modelled on the month it acts on; what it shows as an error message is the error value
  returned, and a rejected submission leaves the month as it was.
\<close>

datatype ui_error =
    NotSetUp | AlreadySetUp | NothingListed
  | AmountNotPositive | BudgetExceeded real
  | ValueNotPositive | NameRequired | NameExists | LimitsExceeded | AddRejected
  | NoSuchExpense

text \<open>
  The "Save Expense" form of the second tab, on \<open>target_month\<close>, the month of the
  expense's date.
\<close>

definition save_expense ::
  "BudgetMonth \<Rightarrow> dt_date \<Rightarrow> real \<Rightarrow> string \<Rightarrow> string \<Rightarrow> ui_error + BudgetMonth" where
  "save_expense target_month exp_date exp_amount exp_cat exp_desc =
     (if exp_amount \<le> 0 then Inl AmountNotPositive
      else if \<not> is_setup target_month then Inl NotSetUp
      else case budget target_month of
        None \<Rightarrow> Inl NotSetUp
      | Some b \<Rightarrow>
          let current_total = total_expenses target_month in
          if current_total + exp_amount > b + 1 / 10 ^ 9
          then Inl (BudgetExceeded (b - current_total))
          else Inr (snd (add_expense target_month exp_date exp_amount exp_cat exp_desc)))"

text \<open>
  The "Save Changes" form of the settings tab: the expense found by
  \<open>get_expense_by_id\<close> is assigned the new amount, category and description. Assigning
  to that object changes the first expense of the list with the id.
\<close>

fun edit_by_id :: "int \<Rightarrow> (Expense \<Rightarrow> Expense) \<Rightarrow> Expense list \<Rightarrow> Expense list" where
  "edit_by_id i f [] = []"
| "edit_by_id i f (e # es) = (if expense_id e = i then f e # es else e # edit_by_id i f es)"

definition save_changes ::
  "BudgetMonth \<Rightarrow> int \<Rightarrow> real \<Rightarrow> string \<Rightarrow> string \<Rightarrow> ui_error + BudgetMonth" where
  "save_changes current_month selected_exp_id edit_amt edit_cat edit_desc =
     (if \<not> is_setup current_month then Inl NotSetUp
      else case get_expense_by_id current_month selected_exp_id of
        None \<Rightarrow> Inl NoSuchExpense
      | Some target_exp \<Rightarrow>
          Inr (current_month\<lparr>expenses :=
                 edit_by_id selected_exp_id
                   (\<lambda>e. e\<lparr>amount := edit_amt, category := edit_cat, description := edit_desc\<rparr>)
                   (expenses current_month)\<rparr>))"

text \<open>The sum \<open>allocated_sar\<close> that both category forms compute.\<close>

definition allocated_sar :: "Category list \<Rightarrow> real \<Rightarrow> real" where
  "allocated_sar cats b = sum_list (map (\<lambda>c. calc_limit c b) cats)"

text \<open>The "Add Category" form of the settings tab.\<close>

definition settings_add_category ::
  "BudgetMonth \<Rightarrow> string \<Rightarrow> limit_kind \<Rightarrow> real \<Rightarrow> ui_error + BudgetMonth" where
  "settings_add_category current_month new_name new_type new_val =
     (if \<not> is_setup current_month then Inl NotSetUp
      else case budget current_month of
        None \<Rightarrow> Inl NotSetUp
      | Some b \<Rightarrow>
          let remaining_sar = b - allocated_sar (map snd (categories current_month)) b in
          if new_val \<le> 0 then Inl ValueNotPositive
          else if strip new_name = [] then Inl NameRequired
          else if has_key (categories current_month) new_name then Inl NameExists
          else
            let requested_sar = (if new_type = Fixed then new_val else new_val / 100 * b) in
            if requested_sar > remaining_sar + 1 / 10 ^ 9 then Inl LimitsExceeded
            else
              let r = add_category current_month
                        \<lparr>name = new_name, limit_type = new_type, val = new_val\<rparr>
              in if fst r then Inr (snd r) else Inl AddRejected)"

text \<open>
  The custom-category part of the setup tab. "Add to List" validates the candidate
  against the list \<open>temp_cats\<close> kept in the session and the budget input of that run;
  "Finalize Setup" sets the budget to the budget input of its own run and adds the listed
  categories.
\<close>

definition add_to_list ::
  "Category list \<Rightarrow> real \<Rightarrow> string \<Rightarrow> limit_kind \<Rightarrow> real \<Rightarrow> ui_error + Category list" where
  "add_to_list temp_cats budget_input new_name new_type new_val =
     (let remaining_sar = budget_input - allocated_sar temp_cats budget_input in
      if new_val \<le> 0 then Inl ValueNotPositive
      else if strip new_name = [] then Inl NameRequired
      else
        let requested_sar =
              (if new_type = Fixed then new_val else new_val / 100 * budget_input) in
        if requested_sar > remaining_sar + 1 / 10 ^ 9 then Inl LimitsExceeded
        else Inr (temp_cats @ [\<lparr>name = new_name, limit_type = new_type, val = new_val\<rparr>]))"

definition finalize_setup ::
  "BudgetMonth \<Rightarrow> Category list \<Rightarrow> real \<Rightarrow> ui_error + BudgetMonth" where
  "finalize_setup current_month temp_cats budget_input =
     (if is_setup current_month then Inl AlreadySetUp
      else if temp_cats = [] then Inl NothingListed
      else Inr (fold (\<lambda>c m. snd (add_category m c)) temp_cats
                  (set_budget current_month budget_input)))"

text \<open>
  A user's sequence of submissions of the two validated ledger forms that keep the
  ceiling (add and delete); a rejected submission changes nothing.
\<close>

datatype ledger_op = SaveExpense dt_date real string string | DeleteExpense int

fun ledger_step :: "ledger_op \<Rightarrow> BudgetMonth \<Rightarrow> BudgetMonth" where
  "ledger_step (SaveExpense dt amt cat_name desc) m =
     (case save_expense m dt amt cat_name desc of Inl err \<Rightarrow> m | Inr m' \<Rightarrow> m')"
| "ledger_step (DeleteExpense i) m = snd (delete_expense_by_id m i)"

text \<open>The spending ceiling, with all stored amounts positive.\<close>

definition within_budget :: "BudgetMonth \<Rightarrow> bool" where
  "within_budget m =
     (case budget m of
        None \<Rightarrow> False
      | Some b \<Rightarrow> list_all (\<lambda>e. 0 < amount e) (expenses m) \<and>
                  total_expenses m \<le> b + 1 / 10 ^ 9)"

subsection \<open>Example states\<close>

text \<open>A set-up month whose only category has a fixed limit of zero.\<close>

definition zero_limit_month :: BudgetMonth where
  "zero_limit_month =
     \<lparr>month_key = ''2024-03'', budget = Some 1000,
      categories = [(''Misc'', \<lparr>name = ''Misc'', limit_type = Fixed, val = 0\<rparr>)],
      expenses = [], next_expense_id = 1\<rparr>"

text \<open>A set-up month with two categories and one expense.\<close>

definition two_category_month :: BudgetMonth where
  "two_category_month =
     \<lparr>month_key = ''2024-03'', budget = Some 1000,
      categories = [(''Food'', \<lparr>name = ''Food'', limit_type = Fixed, val = 400\<rparr>),
                    (''Fun'', \<lparr>name = ''Fun'', limit_type = Percent, val = 20\<rparr>)],
      expenses = [\<lparr>expense_id = 1, d = (2024, 3, 1), amount = 300, category = ''Food'',
                   description = ''lunch''\<rparr>],
      next_expense_id = 2\<rparr>"

text \<open>
  A set-up month in which the user has added a category named "Other" and logged an
  expense against it.
\<close>

definition other_month :: BudgetMonth where
  "other_month =
     \<lparr>month_key = ''2024-03'', budget = Some 1000,
      categories = [(''Other'', \<lparr>name = ''Other'', limit_type = Fixed, val = 500\<rparr>)],
      expenses = [\<lparr>expense_id = 1, d = (2024, 3, 1), amount = 300, category = ''Other'',
                   description = ''taxi''\<rparr>],
      next_expense_id = 2\<rparr>"

text \<open>
  A set-up month with a budget of 100 and no expenses; the same month after an expense
  of 50 has been saved; and after that expense's amount has been edited to 1000.
\<close>

definition food_month :: BudgetMonth where
  "food_month =
     \<lparr>month_key = ''2024-03'', budget = Some 100,
      categories = [(''Food'', \<lparr>name = ''Food'', limit_type = Fixed, val = 50\<rparr>)],
      expenses = [], next_expense_id = 1\<rparr>"

definition food_month_spent :: BudgetMonth where
  "food_month_spent =
     food_month\<lparr>expenses := [\<lparr>expense_id = 1, d = (2024, 3, 1), amount = 50,
                                category = ''Food'', description = ''lunch''\<rparr>],
                 next_expense_id := 2\<rparr>"

definition food_month_edited :: BudgetMonth where
  "food_month_edited =
     food_month\<lparr>expenses := [\<lparr>expense_id = 1, d = (2024, 3, 1), amount = 1000,
                                category = ''Food'', description = ''lunch''\<rparr>],
                 next_expense_id := 2\<rparr>"

text \<open>
  A category listed on the setup tab while the budget input was 1000, and the month that
  "Finalize Setup" produces from the list when the budget input is 100.
\<close>

definition rent_category :: Category where
  "rent_category = \<lparr>name = ''Rent'', limit_type = Fixed, val = 500\<rparr>"

definition rent_month :: BudgetMonth where
  "rent_month =
     \<lparr>month_key = ''2024-03'', budget = Some 100,
      categories = [(''Rent'', rent_category)],
      expenses = [], next_expense_id = 1\<rparr>"

section \<open>Status classification\<close>

text \<open>
  C3. For all numbers spent and limit, \<open>calc_status\<close> returns info when the limit is at
  most zero; otherwise safe when the ratio spent/limit is below 0.50, alert when it is at
  least 0.50 and below 0.80, warning when it is at least 0.80 and below 1.00, and danger
  when it is at least 1.00: each boundary belongs to the higher bucket.
\<close>

theorem calc_status_buckets:
  "(limit \<le> 0 \<longrightarrow> calc_status spent limit = Info) \<and>
   (0 < limit \<and> spent / limit < 0.50 \<longrightarrow> calc_status spent limit = Safe) \<and>
   (0 < limit \<and> 0.50 \<le> spent / limit \<and> spent / limit < 0.80 \<longrightarrow>
      calc_status spent limit = Alert) \<and>
   (0 < limit \<and> 0.80 \<le> spent / limit \<and> spent / limit < 1.00 \<longrightarrow>
      calc_status spent limit = Warning) \<and>
   (0 < limit \<and> 1.00 \<le> spent / limit \<longrightarrow> calc_status spent limit = Danger)"
proof -
  define ratio where "ratio = spent / limit"
  have "calc_status spent limit =
          (if limit \<le> 0 then Info
           else if ratio < 50 / 100 then Safe
           else if ratio < 80 / 100 then Alert
           else if ratio < 100 / 100 then Warning
           else Danger)"
    unfolding calc_status_def Let_def ratio_def by (rule refl)
  then show ?thesis
    unfolding ratio_def [symmetric] by auto
qed

theorem calc_status_buckets_witness:
  "calc_status 49 100 = Safe \<and> calc_status 50 100 = Alert \<and>
   calc_status 79.99 100 = Alert \<and> calc_status 80 100 = Warning \<and>
   calc_status 99.99 100 = Warning \<and> calc_status 100 100 = Danger \<and>
   calc_status 0 0 = Info"
  using calc_status_buckets [of 100 49] calc_status_buckets [of 100 50]
    calc_status_buckets [of 100 "79.99"] calc_status_buckets [of 100 80]
    calc_status_buckets [of 100 "99.99"] calc_status_buckets [of 100 100]
    calc_status_buckets [of 0 0]
  by simp

section \<open>Setting the budget\<close>

text \<open>
  C10. \<open>set_budget\<close> changes only the budget field: the category map, the expense list
  and the counter of the next expense id (and the month key) are as before.
\<close>

theorem set_budget_frame:
  "budget (set_budget m a) = Some a \<and>
   categories (set_budget m a) = categories m \<and>
   expenses (set_budget m a) = expenses m \<and>
   next_expense_id (set_budget m a) = next_expense_id m \<and>
   month_key (set_budget m a) = month_key m"
  by (simp add: set_budget_def)

section \<open>Adding a category\<close>

lemma update_absent:
  "\<not> has_key al k \<Longrightarrow> AList.update k v al = al @ [(k, v)]"
  by (induction al) (auto simp: has_key_def)

lemma add_category_success:
  assumes "strip (name cat) \<noteq> []" and "\<not> has_key (categories m) (strip (name cat))"
  shows "add_category m cat =
           (True, m\<lparr>categories := categories m @ [(strip (name cat), cat)]\<rparr>)"
  using assms by (simp add: add_category_def Let_def update_absent)

lemma add_category_failure:
  assumes "strip (name cat) = [] \<or> has_key (categories m) (strip (name cat))"
  shows "add_category m cat = (False, m)"
  using assms by (auto simp: add_category_def Let_def)

lemma map_of_snoc_absent:
  "\<not> has_key al k \<Longrightarrow> map_of (al @ [(k, v)]) k = Some v"
  by (induction al) (auto simp: has_key_def)

text \<open>
  C6. \<open>add_category\<close> returns true and inserts the category exactly when the candidate's
  name is non-empty after trimming and the trimmed name is not yet a key of the month's
  categories; when it returns false the month is unchanged.
\<close>

theorem add_category_iff:
  "fst (add_category m cat) =
     (strip (name cat) \<noteq> [] \<and> \<not> has_key (categories m) (strip (name cat))) \<and>
   (fst (add_category m cat) \<longrightarrow>
      snd (add_category m cat) = m\<lparr>categories := categories m @ [(strip (name cat), cat)]\<rparr> \<and>
      map_of (categories (snd (add_category m cat))) (strip (name cat)) = Some cat) \<and>
   (\<not> fst (add_category m cat) \<longrightarrow> snd (add_category m cat) = m)"
proof (cases "strip (name cat) \<noteq> [] \<and> \<not> has_key (categories m) (strip (name cat))")
  case True
  then have "add_category m cat =
               (True, m\<lparr>categories := categories m @ [(strip (name cat), cat)]\<rparr>)"
    by (simp add: add_category_success)
  moreover have "map_of (categories m @ [(strip (name cat), cat)]) (strip (name cat)) = Some cat"
    using True by (intro map_of_snoc_absent) simp
  ultimately show ?thesis
    using True by (simp del: map_of_append)
next
  case False
  then have "add_category m cat = (False, m)"
    by (intro add_category_failure) auto
  then show ?thesis
    using False by auto
qed

theorem add_category_iff_witness:
  "fst (add_category (BudgetMonth_init ''2024-03'')
          \<lparr>name = ''Food'', limit_type = Fixed, val = 400\<rparr>) \<and>
   categories (snd (add_category (BudgetMonth_init ''2024-03'')
          \<lparr>name = ''Food'', limit_type = Fixed, val = 400\<rparr>))
     = [(''Food'', \<lparr>name = ''Food'', limit_type = Fixed, val = 400\<rparr>)] \<and>
   \<not> fst (add_category (BudgetMonth_init ''2024-03'')
          \<lparr>name = '' '', limit_type = Fixed, val = 400\<rparr>) \<and>
   snd (add_category (BudgetMonth_init ''2024-03'')
          \<lparr>name = '' '', limit_type = Fixed, val = 400\<rparr>) = BudgetMonth_init ''2024-03''"
  using add_category_iff [of "BudgetMonth_init ''2024-03''"
          "\<lparr>name = ''Food'', limit_type = Fixed, val = 400\<rparr>"]
        add_category_iff [of "BudgetMonth_init ''2024-03''"
          "\<lparr>name = '' '', limit_type = Fixed, val = 400\<rparr>"]
  by (simp add: strip_def isspace_def has_key_def BudgetMonth_init_def)

text \<open>
  C9. When the candidate's name carries surrounding whitespace and trims to a new
  non-empty name, \<open>add_category\<close> stores the entry under the trimmed name, and the stored
  Category keeps the untrimmed name: the key of the entry differs from the name field of
  the object stored under it.
\<close>

theorem add_category_key_is_trimmed:
  assumes "strip (name cat) \<noteq> name cat"
    and "strip (name cat) \<noteq> []"
    and "\<not> has_key (categories m) (strip (name cat))"
  shows "fst (add_category m cat) \<and>
         has_key (categories (snd (add_category m cat))) (strip (name cat)) \<and>
         map_of (categories (snd (add_category m cat))) (strip (name cat)) = Some cat \<and>
         name (the (map_of (categories (snd (add_category m cat))) (strip (name cat))))
           \<noteq> strip (name cat)"
proof -
  let ?k = "strip (name cat)"
  have res: "add_category m cat = (True, m\<lparr>categories := categories m @ [(?k, cat)]\<rparr>)"
    using assms(2,3) by (rule add_category_success)
  have look: "map_of (categories m @ [(?k, cat)]) ?k = Some cat"
    using assms(3) by (rule map_of_snoc_absent)
  have key: "has_key (categories m @ [(?k, cat)]) ?k"
    by (simp add: has_key_def)
  show ?thesis
    using res look key assms(1) by (simp del: map_of_append)
qed

theorem add_category_key_is_trimmed_witness:
  "strip '' Food '' = ''Food'' \<and>
   fst (add_category (BudgetMonth_init ''2024-03'')
          \<lparr>name = '' Food '', limit_type = Percent, val = 20\<rparr>) \<and>
   map_of (categories (snd (add_category (BudgetMonth_init ''2024-03'')
          \<lparr>name = '' Food '', limit_type = Percent, val = 20\<rparr>))) ''Food''
     = Some \<lparr>name = '' Food '', limit_type = Percent, val = 20\<rparr>"
proof -
  let ?cat = "\<lparr>name = '' Food '', limit_type = Percent, val = 20\<rparr>"
  let ?m = "BudgetMonth_init ''2024-03''"
  have s: "strip '' Food '' = ''Food''"
    by (simp add: strip_def isspace_def)
  have h1: "strip (name ?cat) \<noteq> name ?cat" and h2: "strip (name ?cat) \<noteq> []"
    by (simp_all add: s)
  have h3: "\<not> has_key (categories ?m) (strip (name ?cat))"
    by (simp add: has_key_def BudgetMonth_init_def)
  show ?thesis
    using add_category_key_is_trimmed [OF h1 h2 h3] s by simp
qed

section \<open>Expense identifiers\<close>

lemma pop_by_id_subset:
  "pop_by_id i es = Some es' \<Longrightarrow> set es' \<subseteq> set es"
  by (induction es arbitrary: es') (auto split: if_splits)

lemma pop_by_id_distinct:
  "pop_by_id i es = Some es' \<Longrightarrow> distinct (map expense_id es) \<Longrightarrow>
   distinct (map expense_id es')"
proof (induction es arbitrary: es')
  case Nil
  then show ?case by simp
next
  case (Cons e es)
  show ?case
  proof (cases "expense_id e = i")
    case True
    with Cons.prems show ?thesis by simp
  next
    case False
    with Cons.prems obtain rest where r: "pop_by_id i es = Some rest" and e: "es' = e # rest"
      by auto
    have "distinct (map expense_id rest)"
      using Cons.IH [OF r] Cons.prems(2) by simp
    moreover have "expense_id e \<notin> expense_id ` set rest"
      using pop_by_id_subset [OF r] Cons.prems(2) by auto
    ultimately show ?thesis
      using e by simp
  qed
qed

lemma ids_ok_init: "ids_ok ([], BudgetMonth_init key)"
  by (simp add: ids_ok_def BudgetMonth_init_def)

lemma ids_okI:
  assumes "1 \<le> next_expense_id m" and "ids = [1 .. next_expense_id m - 1]"
    and "distinct (map expense_id (expenses m))"
    and "set (map expense_id (expenses m)) \<subseteq> set ids"
  shows "ids_ok (ids, m)"
  unfolding ids_ok_def fst_conv snd_conv using assms by blast

lemma ids_okD:
  assumes "ids_ok (ids, m)"
  shows "1 \<le> next_expense_id m" and "ids = [1 .. next_expense_id m - 1]"
    and "distinct (map expense_id (expenses m))"
    and "set (map expense_id (expenses m)) \<subseteq> set ids"
  using assms unfolding ids_ok_def fst_conv snd_conv by blast+

lemma ids_ok_step:
  assumes "ids_ok s"
  shows "ids_ok (apply_expense_op op s)"
proof (cases s)
  case (Pair ids m)
  note inv = ids_okD [OF assms [unfolded Pair]]
  show ?thesis
  proof (cases op)
    case (AddExpense dt amt cat_name desc)
    let ?n = "next_expense_id m"
    let ?e = "\<lparr>expense_id = ?n, d = dt, amount = amt, category = cat_name,
               description = strip desc\<rparr>"
    have step: "apply_expense_op op s =
                  (ids @ [?n], m\<lparr>expenses := expenses m @ [?e], next_expense_id := ?n + 1\<rparr>)"
      unfolding Pair AddExpense by (simp add: add_expense_def Let_def)
    have a: "ids @ [?n] = [1 .. (?n + 1) - 1]"
      using inv(1,2) by (simp add: upto_rec2)
    have fresh: "?n \<notin> set ids"
      by (subst inv(2)) simp
    then have b: "distinct (map expense_id (expenses m @ [?e]))"
      using inv(3,4) by auto
    have c: "set (map expense_id (expenses m @ [?e])) \<subseteq> set (ids @ [?n])"
      using inv(4) by auto
    show ?thesis
      unfolding step using inv(1) a b c by (intro ids_okI) simp_all
  next
    case (DeleteExpenseById i)
    show ?thesis
    proof (cases "pop_by_id i (expenses m)")
      case None
      then have "apply_expense_op op s = (ids, m)"
        unfolding Pair DeleteExpenseById by (simp add: delete_expense_by_id_def)
      then show ?thesis
        using assms Pair by simp
    next
      case (Some es')
      then have step: "apply_expense_op op s = (ids, m\<lparr>expenses := es'\<rparr>)"
        unfolding Pair DeleteExpenseById by (simp add: delete_expense_by_id_def)
      have b: "distinct (map expense_id es')"
        using pop_by_id_distinct [OF Some] inv(3) by simp
      have c: "set (map expense_id es') \<subseteq> set ids"
        using pop_by_id_subset [OF Some] inv(4) by auto
      show ?thesis
        unfolding step using inv(1,2) b c by (intro ids_okI) simp_all
    qed
  qed
qed

lemma ids_ok_fold: "ids_ok s \<Longrightarrow> ids_ok (fold apply_expense_op ops s)"
  by (induction ops arbitrary: s) (simp_all add: ids_ok_step)

lemma length_ids_step:
  "length (fst (apply_expense_op op s)) = length (fst s) + (if is_add op then 1 else 0)"
  by (cases op; cases s) simp_all

lemma length_ids_fold:
  "length (fst (fold apply_expense_op ops s)) = length (fst s) + length (filter is_add ops)"
  by (induction ops arbitrary: s) (simp_all add: length_ids_step)

text \<open>
  C7. On a month as the registry creates it, after any sequence of \<open>add_expense\<close> and
  \<open>delete_expense_by_id\<close> calls: the ids the calls of \<open>add_expense\<close> assigned are, in
  order, 1, 2, ..., n for the n additions made (so no id is ever assigned twice, whatever
  was deleted in between), the stored expenses carry pairwise distinct ids, each of
  them one of the assigned ids, and the counter stands at n + 1.
\<close>

theorem expense_ids_sequential:
  "fst (run_expense_ops ops (BudgetMonth_init key)) = [1 .. int (length (filter is_add ops))] \<and>
   distinct (fst (run_expense_ops ops (BudgetMonth_init key))) \<and>
   distinct (map expense_id (expenses (snd (run_expense_ops ops (BudgetMonth_init key))))) \<and>
   set (map expense_id (expenses (snd (run_expense_ops ops (BudgetMonth_init key)))))
     \<subseteq> set (fst (run_expense_ops ops (BudgetMonth_init key))) \<and>
   next_expense_id (snd (run_expense_ops ops (BudgetMonth_init key)))
     = int (length (filter is_add ops)) + 1"
proof -
  let ?r = "run_expense_ops ops (BudgetMonth_init key)"
  have ok: "ids_ok ?r"
    unfolding run_expense_ops_def by (rule ids_ok_fold [OF ids_ok_init])
  have len: "length (fst ?r) = length (filter is_add ops)"
    unfolding run_expense_ops_def by (simp add: length_ids_fold)
  have ok': "ids_ok (fst ?r, snd ?r)"
    using ok by simp
  note ge = ids_okD(1) [OF ok'] and ids = ids_okD(2) [OF ok']
    and dist = ids_okD(3) [OF ok'] and sub = ids_okD(4) [OF ok']
  have "length (fst ?r) = nat (next_expense_id (snd ?r) - 1)"
    by (subst ids) simp
  then have "length (filter is_add ops) = nat (next_expense_id (snd ?r) - 1)"
    using len by simp
  then have nxt: "next_expense_id (snd ?r) = int (length (filter is_add ops)) + 1"
    using ge by simp
  have "distinct (fst ?r)"
    by (subst ids) simp
  then show ?thesis
    using ids dist sub nxt by simp
qed

section \<open>The registry\<close>

lemma get_month_present:
  assumes "has_key (months app) key"
  shows "get_month app key = (map_of (months app) key, app)"
  using assms by (simp add: get_month_def)

lemma has_key_map_of: "has_key al k \<Longrightarrow> map_of al k \<noteq> None"
  by (induction al) (auto simp: has_key_def)

lemma has_key_update: "has_key (AList.update k v al) k"
  by (simp add: has_key_def dom_update)

lemma get_month_has_key: "has_key (months (snd (get_month app key))) key"
  by (simp add: get_month_def has_key_update)

lemma get_month_distinct:
  "distinct (map fst (months app)) \<Longrightarrow> distinct (map fst (months (snd (get_month app key))))"
  by (simp add: get_month_def distinct_update)

lemma get_months_distinct:
  "distinct (map fst (months app)) \<Longrightarrow> distinct (map fst (months (get_months keys app)))"
  unfolding get_months_def
  by (induction keys arbitrary: app) (simp_all add: get_month_distinct)

lemma get_month_absent:
  assumes "\<not> has_key (months app) key"
  shows "get_month app key =
           (Some (BudgetMonth_init key),
            app\<lparr>months := months app @ [(key, BudgetMonth_init key)]\<rparr>)"
proof -
  have "map_of (months app @ [(key, BudgetMonth_init key)]) key = Some (BudgetMonth_init key)"
    using assms by (rule map_of_snoc_absent)
  then show ?thesis
    using assms by (simp add: get_month_def update_absent del: map_of_append)
qed

text \<open>
  C8. \<open>get_month\<close> always returns a month, and the month it returns is the entry the
  registry holds under the key after the call: for a key already present it is the
  entry found, with the registry unchanged, and for an absent key it is the month just
  created, which the call has stored at the end of the registry. A second call with the
  same key returns the same month and leaves the registry as the first call left it. The
  second call returns the stored entry, not a fresh one: whatever state the entry under
  the key has been given in between is what the call returns. A registry built by any
  sequence of \<open>get_month\<close> calls holds each key once.
\<close>

theorem get_month_idempotent:
  "fst (get_month app key) \<noteq> None \<and>
   has_key (months (snd (get_month app key))) key \<and>
   map_of (months (snd (get_month app key))) key = fst (get_month app key) \<and>
   get_month app key =
     (if has_key (months app) key then (map_of (months app) key, app)
      else (Some (BudgetMonth_init key),
            app\<lparr>months := months app @ [(key, BudgetMonth_init key)]\<rparr>)) \<and>
   get_month (snd (get_month app key)) key = get_month app key \<and>
   fst (get_month (snd (get_month app key)) key)
     = map_of (months (snd (get_month app key))) key \<and>
   get_month ((snd (get_month app key))
                \<lparr>months := AList.update key m' (months (snd (get_month app key)))\<rparr>) key
     = (Some m', (snd (get_month app key))
                   \<lparr>months := AList.update key m' (months (snd (get_month app key)))\<rparr>) \<and>
   distinct (map fst (months (get_months keys BudgetTrackerApp_init)))"
proof -
  let ?app1 = "snd (get_month app key)"
  have k: "has_key (months ?app1) key"
    by (rule get_month_has_key)
  have first: "get_month app key = (map_of (months ?app1) key, ?app1)"
    by (simp add: get_month_def Let_def)
  have stored: "map_of (months ?app1) key = fst (get_month app key)"
    by (subst (2) first) simp
  have second: "get_month ?app1 key = (map_of (months ?app1) key, ?app1)"
    using k by (rule get_month_present)
  have again: "get_month ?app1 key = get_month app key"
    using first second by simp
  have again_stored: "fst (get_month ?app1 key) = map_of (months ?app1) key"
    by (subst second) simp
  have some: "fst (get_month app key) \<noteq> None"
    using stored has_key_map_of [OF k] by simp
  have cases: "get_month app key =
     (if has_key (months app) key then (map_of (months app) key, app)
      else (Some (BudgetMonth_init key),
            app\<lparr>months := months app @ [(key, BudgetMonth_init key)]\<rparr>))"
    by (simp add: get_month_present get_month_absent)
  let ?app2 = "?app1\<lparr>months := AList.update key m' (months ?app1)\<rparr>"
  have "has_key (months ?app2) key"
    by (simp add: has_key_update)
  then have "get_month ?app2 key = (map_of (months ?app2) key, ?app2)"
    by (rule get_month_present)
  then have third: "get_month ?app2 key = (Some m', ?app2)"
    by (simp add: update_conv')
  have dist: "distinct (map fst (months (get_months keys BudgetTrackerApp_init)))"
    by (rule get_months_distinct) (simp add: BudgetTrackerApp_init_def)
  show ?thesis
    using some k stored cases again again_stored third dist by blast
qed

theorem get_month_idempotent_witness:
  "fst (get_month BudgetTrackerApp_init ''2024-03'') = Some (BudgetMonth_init ''2024-03'') \<and>
   months (snd (get_month BudgetTrackerApp_init ''2024-03''))
     = [(''2024-03'', BudgetMonth_init ''2024-03'')] \<and>
   map_of (months (snd (get_month BudgetTrackerApp_init ''2024-03''))) ''2024-03''
     = Some (BudgetMonth_init ''2024-03'') \<and>
   get_month (snd (get_month BudgetTrackerApp_init ''2024-03'')) ''2024-03''
     = get_month BudgetTrackerApp_init ''2024-03''"
proof -
  have absent: "\<not> has_key (months BudgetTrackerApp_init) ''2024-03''"
    by (simp add: has_key_def BudgetTrackerApp_init_def)
  have empty: "months BudgetTrackerApp_init = []"
    by (simp add: BudgetTrackerApp_init_def)
  note fact = get_month_idempotent [of BudgetTrackerApp_init "''2024-03''"]
  have first: "get_month BudgetTrackerApp_init ''2024-03''
                 = (Some (BudgetMonth_init ''2024-03''),
                    BudgetTrackerApp_init\<lparr>months := [(''2024-03'', BudgetMonth_init ''2024-03'')]\<rparr>)"
    using fact absent by (simp add: empty)
  have again: "get_month (snd (get_month BudgetTrackerApp_init ''2024-03'')) ''2024-03''
                 = get_month BudgetTrackerApp_init ''2024-03''"
    using fact by blast
  show ?thesis
    using again by (simp add: first)
qed

section \<open>Status summary\<close>

lemma fold_bump_counts:
  "safe_n (fold (\<lambda>x cs. bump (f x) cs) xs cs0)
     = safe_n cs0 + length (filter (\<lambda>x. f x = Safe) xs) \<and>
   alert_n (fold (\<lambda>x cs. bump (f x) cs) xs cs0)
     = alert_n cs0 + length (filter (\<lambda>x. f x = Alert) xs) \<and>
   warning_n (fold (\<lambda>x cs. bump (f x) cs) xs cs0)
     = warning_n cs0 + length (filter (\<lambda>x. f x = Warning) xs) \<and>
   danger_n (fold (\<lambda>x cs. bump (f x) cs) xs cs0)
     = danger_n cs0 + length (filter (\<lambda>x. f x = Danger) xs)"
proof (induction xs arbitrary: cs0)
  case Nil
  show ?case by simp
next
  case (Cons x xs)
  show ?case
    by (cases "f x") (simp_all add: Cons.IH)
qed

lemma length_filter_not_info:
  "length (filter (\<lambda>x. f x \<noteq> Info) xs)
     = length (filter (\<lambda>x. f x = Safe) xs) + length (filter (\<lambda>x. f x = Alert) xs)
       + length (filter (\<lambda>x. f x = Warning) xs) + length (filter (\<lambda>x. f x = Danger) xs)"
proof (induction xs)
  case Nil
  show ?case by simp
next
  case (Cons x xs)
  then show ?case
    by (cases "f x") simp_all
qed

lemma calc_status_Info_iff: "calc_status spent limit = Info \<longleftrightarrow> limit \<le> 0"
  by (simp add: calc_status_def Let_def)

lemma item_status_not_Info_iff:
  "item_status m b item \<noteq> Info \<longleftrightarrow> 0 < calc_limit (snd item) b"
  by (simp add: item_status_def Let_def calc_status_Info_iff not_le)

text \<open>
  C5, as the code has it. \<open>status_summary_counts\<close> returns four counts, for safe, alert,
  warning and danger; there is no count for info. When the budget is not set, all four
  are zero. When it is set, each count is the number of categories whose status, computed
  by \<open>calc_status\<close> from the category's spend total and its limit under the budget, is
  that bucket. So a category with a positive limit is counted in exactly one bucket, and
  a category with status info (limit at most zero) is counted in none: the four counts
  add up to the number of categories with a positive limit.
\<close>

theorem status_summary_counts_buckets:
  "(budget m = None \<longrightarrow>
      status_summary_counts m = \<lparr>safe_n = 0, alert_n = 0, warning_n = 0, danger_n = 0\<rparr>) \<and>
   (budget m = Some b \<longrightarrow>
      safe_n (status_summary_counts m)
        = length (filter (\<lambda>item. item_status m b item = Safe) (categories m)) \<and>
      alert_n (status_summary_counts m)
        = length (filter (\<lambda>item. item_status m b item = Alert) (categories m)) \<and>
      warning_n (status_summary_counts m)
        = length (filter (\<lambda>item. item_status m b item = Warning) (categories m)) \<and>
      danger_n (status_summary_counts m)
        = length (filter (\<lambda>item. item_status m b item = Danger) (categories m)) \<and>
      safe_n (status_summary_counts m) + alert_n (status_summary_counts m)
        + warning_n (status_summary_counts m) + danger_n (status_summary_counts m)
        = length (filter (\<lambda>item. 0 < calc_limit (snd item) b) (categories m)))"
proof (cases "budget m")
  case None
  then show ?thesis
    by (simp add: status_summary_counts_def)
next
  case (Some b')
  let ?zero = "\<lparr>safe_n = 0, alert_n = 0, warning_n = 0, danger_n = 0\<rparr>"
  have run: "status_summary_counts m
               = fold (\<lambda>item cs. bump (item_status m b' item) cs) (categories m) ?zero"
    using Some by (simp add: status_summary_counts_def)
  note counts = fold_bump_counts [of "item_status m b'" "categories m" ?zero, folded run]
  have total: "length (filter (\<lambda>item. 0 < calc_limit (snd item) b') (categories m))
                 = length (filter (\<lambda>item. item_status m b' item = Safe) (categories m))
                 + length (filter (\<lambda>item. item_status m b' item = Alert) (categories m))
                 + length (filter (\<lambda>item. item_status m b' item = Warning) (categories m))
                 + length (filter (\<lambda>item. item_status m b' item = Danger) (categories m))"
    using length_filter_not_info [of "item_status m b'" "categories m"]
    by (simp only: item_status_not_Info_iff)
  show ?thesis
    using Some counts total by auto
qed

theorem status_summary_counts_buckets_witness:
  "budget two_category_month = Some 1000 \<and>
   status_summary_counts two_category_month
     = \<lparr>safe_n = 1, alert_n = 1, warning_n = 0, danger_n = 0\<rparr> \<and>
   status_summary_counts (BudgetMonth_init ''2024-04'')
     = \<lparr>safe_n = 0, alert_n = 0, warning_n = 0, danger_n = 0\<rparr>"
proof -
  have b: "budget two_category_month = Some 1000"
    by (simp add: two_category_month_def)
  have n: "budget (BudgetMonth_init ''2024-04'') = None"
    by (simp add: BudgetMonth_init_def)
  have totals: "total_by_category two_category_month = [(''Food'', 300)]"
    by (simp add: total_by_category_def two_category_month_def get_or_zero_def)
  have food: "item_status two_category_month 1000
                (''Food'', \<lparr>name = ''Food'', limit_type = Fixed, val = 400\<rparr>) = Alert"
    by (simp add: item_status_def totals get_or_zero_def calc_limit_def calc_status_def)
  have "fun": "item_status two_category_month 1000
                (''Fun'', \<lparr>name = ''Fun'', limit_type = Percent, val = 20\<rparr>) = Safe"
    by (simp add: item_status_def totals get_or_zero_def calc_limit_def calc_status_def)
  have cats: "categories two_category_month
                = [(''Food'', \<lparr>name = ''Food'', limit_type = Fixed, val = 400\<rparr>),
                   (''Fun'', \<lparr>name = ''Fun'', limit_type = Percent, val = 20\<rparr>)]"
    by (simp add: two_category_month_def)
  have "status_summary_counts two_category_month
          = \<lparr>safe_n = 1, alert_n = 1, warning_n = 0, danger_n = 0\<rparr>"
    using status_summary_counts_buckets [of two_category_month 1000] b
    by (cases "status_summary_counts two_category_month") (simp add: cats food "fun")
  moreover have "status_summary_counts (BudgetMonth_init ''2024-04'')
          = \<lparr>safe_n = 0, alert_n = 0, warning_n = 0, danger_n = 0\<rparr>"
    using status_summary_counts_buckets [of "BudgetMonth_init ''2024-04''"] n by simp
  ultimately show ?thesis
    using b by simp
qed

text \<open>
  The claim as the specification states it, that every category is counted in exactly one
  bucket, fails for a category whose limit is zero: the month has its budget set and one
  category, and all counts are zero.
\<close>

theorem status_summary_counts_skips_info:
  "budget zero_limit_month = Some 1000 \<and>
   length (categories zero_limit_month) = 1 \<and>
   item_status zero_limit_month 1000 (hd (categories zero_limit_month)) = Info \<and>
   status_summary_counts zero_limit_month
     = \<lparr>safe_n = 0, alert_n = 0, warning_n = 0, danger_n = 0\<rparr>"
  by (simp add: zero_limit_month_def status_summary_counts_def item_status_def
        calc_limit_def calc_status_def)

section \<open>Deleting a category\<close>

lemma has_key_delete: "has_key (AList.delete k al) k' \<longleftrightarrow> has_key al k' \<and> k' \<noteq> k"
  by (auto simp: has_key_def delete_keys)

lemma has_key_update_iff: "has_key (AList.update k v al) k' \<longleftrightarrow> k' = k \<or> has_key al k'"
  by (auto simp: has_key_def dom_update)

lemma reassign_total:
  "sum_list (map amount (map (\<lambda>e. if category e = nm then e\<lparr>category := other\<rparr> else e) es))
     = sum_list (map amount es)"
  by (induction es) simp_all

lemma reassign_no_reference:
  "nm \<noteq> other \<Longrightarrow>
   \<not> list_ex (\<lambda>e. category e = nm)
        (map (\<lambda>e. if category e = nm then e\<lparr>category := other\<rparr> else e) es)"
  by (induction es) simp_all

text \<open>
  What \<open>delete_category\<close> with \<open>move_to_other\<close> does for every category other than
  "Other" itself: it succeeds, "Other" is a category afterwards (created with the fixed
  cap \<open>10 ^ 18\<close> if it was absent), the expenses of the deleted category now carry
  "Other" and all others are untouched, the deleted name is no longer a key, no expense
  references it, and the total of the expenses is the same.
\<close>

lemma delete_category_moves_expenses:
  assumes "has_key (categories m) nm"
    and "category_has_expenses m nm"
    and "nm \<noteq> ''Other''"
  shows "fst (delete_category m nm True) = (True, DeletedSuccessfully nm)"
    and "has_key (categories (snd (delete_category m nm True))) ''Other''"
    and "\<not> has_key (categories m) ''Other'' \<Longrightarrow>
         map_of (categories (snd (delete_category m nm True))) ''Other''
           = Some \<lparr>name = ''Other'', limit_type = Fixed, val = 10 ^ 18\<rparr>"
    and "expenses (snd (delete_category m nm True))
           = map (\<lambda>e. if category e = nm then e\<lparr>category := ''Other''\<rparr> else e) (expenses m)"
    and "\<not> has_key (categories (snd (delete_category m nm True))) nm"
    and "\<not> category_has_expenses (snd (delete_category m nm True)) nm"
    and "total_expenses (snd (delete_category m nm True)) = total_expenses m"
proof -
  let ?other = "\<lparr>name = ''Other'', limit_type = Fixed, val = 10 ^ 18\<rparr>"
  let ?cats1 = "if \<not> has_key (categories m) ''Other''
                then AList.update ''Other'' ?other (categories m) else categories m"
  let ?exps1 = "map (\<lambda>e. if category e = nm then e\<lparr>category := ''Other''\<rparr> else e) (expenses m)"
  have res: "delete_category m nm True =
               ((True, DeletedSuccessfully nm),
                m\<lparr>categories := AList.delete nm ?cats1, expenses := ?exps1\<rparr>)"
    using assms(1,2) by (simp add: delete_category_def Let_def)
  show "fst (delete_category m nm True) = (True, DeletedSuccessfully nm)"
    by (simp add: res)
  have other1: "has_key ?cats1 ''Other''"
    by (simp add: has_key_update_iff)
  show "has_key (categories (snd (delete_category m nm True))) ''Other''"
    using other1 assms(3) by (simp add: res has_key_delete)
  show "map_of (categories (snd (delete_category m nm True))) ''Other'' = Some ?other"
    if "\<not> has_key (categories m) ''Other''"
    using that assms(3) by (simp add: res update_conv')
  show exps: "expenses (snd (delete_category m nm True)) = ?exps1"
    by (simp add: res)
  show "\<not> has_key (categories (snd (delete_category m nm True))) nm"
    by (simp add: res has_key_delete)
  show "\<not> category_has_expenses (snd (delete_category m nm True)) nm"
    using reassign_no_reference [OF assms(3)] by (simp add: res category_has_expenses_def)
  show "total_expenses (snd (delete_category m nm True)) = total_expenses m"
    unfolding total_expenses_def exps by (rule reassign_total)
qed

text \<open>
  C1 at the category "Other" itself. The month has the category "Other" and an expense
  logged against it. \<open>delete_category\<close> with \<open>move_to_other\<close> reports success and
  removes "Other"; the expense still names "Other", which is no longer a category. The
  total is kept.
\<close>

theorem delete_category_other_orphans:
  "has_key (categories other_month) ''Other'' \<and>
   category_has_expenses other_month ''Other'' \<and>
   fst (delete_category other_month ''Other'' True) = (True, DeletedSuccessfully ''Other'') \<and>
   categories (snd (delete_category other_month ''Other'' True)) = [] \<and>
   \<not> has_key (categories (snd (delete_category other_month ''Other'' True))) ''Other'' \<and>
   category_has_expenses (snd (delete_category other_month ''Other'' True)) ''Other'' \<and>
   total_expenses (snd (delete_category other_month ''Other'' True))
     = total_expenses other_month"
  by (simp add: other_month_def delete_category_def has_key_def category_has_expenses_def
        total_expenses_def Let_def)

section \<open>The spending ceiling\<close>

lemma pop_by_id_amounts:
  "pop_by_id i es = Some es' \<Longrightarrow> list_all (\<lambda>e. 0 < amount e) es \<Longrightarrow>
   list_all (\<lambda>e. 0 < amount e) es' \<and> sum_list (map amount es') \<le> sum_list (map amount es)"
proof (induction es arbitrary: es')
  case Nil
  then show ?case by simp
next
  case (Cons e es)
  show ?case
  proof (cases "expense_id e = i")
    case True
    with Cons.prems show ?thesis by simp
  next
    case False
    with Cons.prems obtain rest where r: "pop_by_id i es = Some rest" and e: "es' = e # rest"
      by auto
    from Cons.IH [OF r] Cons.prems(2) e show ?thesis
      by simp
  qed
qed

text \<open>
  A saved expense has a positive amount, is appended to the ledger, and leaves the total
  within the budget plus the tolerance.
\<close>

lemma save_expense_ceiling:
  assumes "save_expense m dt amt cat_name desc = Inr m'"
  shows "\<exists>b. budget m = Some b \<and> budget m' = Some b \<and> 0 < amt \<and>
             expenses m' = expenses m @ [fst (add_expense m dt amt cat_name desc)] \<and>
             amount (fst (add_expense m dt amt cat_name desc)) = amt \<and>
             total_expenses m' = total_expenses m + amt \<and>
             total_expenses m' \<le> b + 1 / 10 ^ 9"
proof (cases "budget m")
  case None
  with assms show ?thesis
    by (simp add: save_expense_def split: if_splits)
next
  case (Some b)
  with assms have pos: "0 < amt"
    and le: "total_expenses m + amt \<le> b + 1 / 10 ^ 9"
    and m': "m' = snd (add_expense m dt amt cat_name desc)"
    by (auto simp: save_expense_def Let_def split: if_splits)
  show ?thesis
    using Some pos le unfolding m'
    by (simp add: add_expense_def Let_def total_expenses_def)
qed

lemma ledger_step_within:
  assumes "within_budget m"
  shows "within_budget (ledger_step op m)"
proof (cases op)
  case (SaveExpense dt amt cat_name desc)
  show ?thesis
  proof (cases "save_expense m dt amt cat_name desc")
    case (Inl err)
    then show ?thesis
      using assms SaveExpense by simp
  next
    case (Inr m')
    from save_expense_ceiling [OF Inr] obtain b where
      "budget m = Some b" "budget m' = Some b" "0 < amt"
      "expenses m' = expenses m @ [fst (add_expense m dt amt cat_name desc)]"
      "amount (fst (add_expense m dt amt cat_name desc)) = amt"
      "total_expenses m' \<le> b + 1 / 10 ^ 9"
      by blast
    then have "within_budget m'"
      using assms by (simp add: within_budget_def)
    then show ?thesis
      using Inr SaveExpense by simp
  qed
next
  case (DeleteExpense i)
  show ?thesis
  proof (cases "pop_by_id i (expenses m)")
    case None
    then show ?thesis
      using assms DeleteExpense by (simp add: delete_expense_by_id_def)
  next
    case (Some es')
    from assms obtain b where b: "budget m = Some b"
      and pos: "list_all (\<lambda>e. 0 < amount e) (expenses m)"
      and le: "total_expenses m \<le> b + 1 / 10 ^ 9"
      by (auto simp: within_budget_def split: option.splits)
    from pop_by_id_amounts [OF Some pos]
    have "list_all (\<lambda>e. 0 < amount e) es'"
      and "sum_list (map amount es') \<le> sum_list (map amount (expenses m))"
      by simp_all
    then have "within_budget (m\<lparr>expenses := es'\<rparr>)"
      using b le by (simp add: within_budget_def total_expenses_def)
    then show ?thesis
      using Some DeleteExpense by (simp add: delete_expense_by_id_def)
  qed
qed

text \<open>
  Submissions of the add form and deletions, in any order, keep the ledger within the
  budget plus the tolerance.
\<close>

lemma ledger_steps_within:
  "within_budget m \<Longrightarrow> within_budget (fold ledger_step ops m)"
  by (induction ops arbitrary: m) (simp_all add: ledger_step_within)

text \<open>
  C2 on the edit form. The month has a budget of 100. Saving an expense of 50 passes the
  guard of the add form and the month is within its budget. "Save Changes" with the
  amount 1000 for that expense is accepted, since the edit form assigns the new amount
  without comparing the total to the budget: the ledger then totals 1000, above
  100 + 1e-9.
\<close>

theorem save_changes_exceeds_budget:
  "save_expense food_month (2024, 3, 1) 50 ''Food'' ''lunch'' = Inr food_month_spent \<and>
   within_budget food_month_spent \<and>
   save_changes food_month_spent 1 1000 ''Food'' ''lunch'' = Inr food_month_edited \<and>
   budget food_month_edited = Some 100 \<and>
   total_expenses food_month_edited = 1000 \<and>
   \<not> total_expenses food_month_edited \<le> 100 + 1 / 10 ^ 9"
proof -
  have strip_lunch: "strip ''lunch'' = ''lunch''"
    by (simp add: strip_def isspace_def)
  have a: "save_expense food_month (2024, 3, 1) 50 ''Food'' ''lunch'' = Inr food_month_spent"
    by (simp add: save_expense_def food_month_def food_month_spent_def is_setup_def
          total_expenses_def add_expense_def Let_def strip_lunch)
  have b: "within_budget food_month_spent"
    by (simp add: within_budget_def food_month_spent_def food_month_def total_expenses_def)
  have c: "save_changes food_month_spent 1 1000 ''Food'' ''lunch'' = Inr food_month_edited"
    by (simp add: save_changes_def food_month_spent_def food_month_edited_def food_month_def
          is_setup_def get_expense_by_id_def)
  have d: "total_expenses food_month_edited = 1000"
    by (simp add: food_month_edited_def food_month_def total_expenses_def)
  have e: "budget food_month_edited = Some 100"
    by (simp add: food_month_edited_def food_month_def)
  show ?thesis
    using a b c e by (simp add: d)
qed

section \<open>The allocation ceiling\<close>

lemma allocated_sar_snoc:
  "allocated_sar (cats @ [c]) b = allocated_sar cats b + calc_limit c b"
  by (simp add: allocated_sar_def)

text \<open>
  \<open>add_category\<close> itself: when the candidate's limit has been checked against the
  month's remaining allocation under the month's budget, a successful call leaves the sum
  of the limits within the budget plus the tolerance.
\<close>

lemma add_category_prechecked:
  assumes "calc_limit cat b \<le> (b - allocated_sar (map snd (categories m)) b) + 1 / 10 ^ 9"
    and "fst (add_category m cat)"
  shows "allocated_sar (map snd (categories (snd (add_category m cat)))) b \<le> b + 1 / 10 ^ 9"
    and "budget (snd (add_category m cat)) = budget m"
proof -
  have ok: "strip (name cat) \<noteq> []" "\<not> has_key (categories m) (strip (name cat))"
    using assms(2) by (auto simp: add_category_def Let_def split: if_splits)
  note res = add_category_success [OF ok]
  show "allocated_sar (map snd (categories (snd (add_category m cat)))) b \<le> b + 1 / 10 ^ 9"
    using assms(1) by (simp add: res allocated_sar_snoc)
  show "budget (snd (add_category m cat)) = budget m"
    by (simp add: res)
qed

text \<open>
  The settings form checks against the month's own budget and categories immediately
  before the call, so a category it adds keeps the allocation ceiling.
\<close>

lemma settings_add_category_ceiling:
  assumes "settings_add_category m new_name new_type new_val = Inr m'"
  shows "\<exists>b. budget m' = Some b \<and>
             allocated_sar (map snd (categories m')) b \<le> b + 1 / 10 ^ 9"
proof (cases "budget m")
  case None
  with assms show ?thesis
    by (simp add: settings_add_category_def split: if_splits)
next
  case (Some b)
  let ?cat = "\<lparr>name = new_name, limit_type = new_type, val = new_val\<rparr>"
  have req: "(if new_type = Fixed then new_val else new_val / 100 * b) = calc_limit ?cat b"
    by (cases new_type) (simp_all add: calc_limit_def)
  from assms Some
  have chk: "\<not> (if new_type = Fixed then new_val else new_val / 100 * b)
               > (b - allocated_sar (map snd (categories m)) b) + 1 / 10 ^ 9"
    and added: "fst (add_category m ?cat)"
    and m': "m' = snd (add_category m ?cat)"
    by (auto simp: settings_add_category_def Let_def split: if_splits)
  have pre: "calc_limit ?cat b \<le> (b - allocated_sar (map snd (categories m)) b) + 1 / 10 ^ 9"
    using chk unfolding req by simp
  show ?thesis
    using add_category_prechecked [OF pre added] Some unfolding m' by simp
qed

text \<open>
  The setup tab keeps the ceiling as long as the budget input does not change between
  the last accepted "Add to List" and "Finalize Setup": the listed limits sum to at most
  the budget plus the tolerance, and finalizing adds a sublist of them to a month
  without categories.
\<close>

lemma add_to_list_ceiling:
  assumes "add_to_list temp_cats b new_name new_type new_val = Inr cats'"
  shows "allocated_sar cats' b \<le> b + 1 / 10 ^ 9"
proof -
  let ?cat = "\<lparr>name = new_name, limit_type = new_type, val = new_val\<rparr>"
  have req: "(if new_type = Fixed then new_val else new_val / 100 * b) = calc_limit ?cat b"
    by (cases new_type) (simp_all add: calc_limit_def)
  from assms
  have chk: "\<not> (if new_type = Fixed then new_val else new_val / 100 * b)
               > (b - allocated_sar temp_cats b) + 1 / 10 ^ 9"
    and cats': "cats' = temp_cats @ [?cat]"
    by (auto simp: add_to_list_def Let_def split: if_splits)
  have "calc_limit ?cat b \<le> (b - allocated_sar temp_cats b) + 1 / 10 ^ 9"
    using chk unfolding req by simp
  then show ?thesis
    unfolding cats' by (simp add: allocated_sar_snoc)
qed

lemma add_category_allocated:
  assumes "0 \<le> calc_limit c b"
  shows "allocated_sar (map snd (categories (snd (add_category m c)))) b
           \<le> allocated_sar (map snd (categories m)) b + calc_limit c b"
    and "budget (snd (add_category m c)) = budget m"
proof -
  show "allocated_sar (map snd (categories (snd (add_category m c)))) b
          \<le> allocated_sar (map snd (categories m)) b + calc_limit c b"
  proof (cases "strip (name c) \<noteq> [] \<and> \<not> has_key (categories m) (strip (name c))")
    case True
    then show ?thesis
      by (simp add: add_category_success allocated_sar_snoc)
  next
    case False
    then have "add_category m c = (False, m)"
      by (intro add_category_failure) auto
    then show ?thesis
      using assms by simp
  qed
  show "budget (snd (add_category m c)) = budget m"
    by (simp add: add_category_def Let_def)
qed

lemma fold_add_category_allocated:
  assumes "list_all (\<lambda>c. 0 \<le> calc_limit c b) cs"
  shows "allocated_sar (map snd (categories (fold (\<lambda>c m. snd (add_category m c)) cs m))) b
           \<le> allocated_sar (map snd (categories m)) b + allocated_sar cs b \<and>
         budget (fold (\<lambda>c m. snd (add_category m c)) cs m) = budget m"
  using assms
proof (induction cs arbitrary: m)
  case Nil
  show ?case by (simp add: allocated_sar_def)
next
  case (Cons c cs)
  have c: "0 \<le> calc_limit c b" and cs: "list_all (\<lambda>c. 0 \<le> calc_limit c b) cs"
    using Cons.prems by simp_all
  have split: "allocated_sar (c # cs) b = calc_limit c b + allocated_sar cs b"
    by (simp add: allocated_sar_def)
  show ?case
    using Cons.IH [OF cs, of "snd (add_category m c)"] add_category_allocated [OF c, of m]
    by (simp add: split)
qed

lemma finalize_setup_same_budget:
  assumes "add_to_list temp_cats b new_name new_type new_val = Inr cats'"
    and "list_all (\<lambda>c. 0 \<le> calc_limit c b) cats'"
    and "categories m = []"
    and "finalize_setup m cats' b = Inr m'"
  shows "budget m' = Some b \<and> allocated_sar (map snd (categories m')) b \<le> b + 1 / 10 ^ 9"
proof -
  have m': "m' = fold (\<lambda>c m. snd (add_category m c)) cats' (set_budget m b)"
    using assms(4) by (simp add: finalize_setup_def split: if_splits)
  have start: "allocated_sar (map snd (categories (set_budget m b))) b = 0"
    using assms(3) by (simp add: set_budget_def allocated_sar_def)
  have "budget (set_budget m b) = Some b"
    by (simp add: set_budget_def)
  then show ?thesis
    using fold_add_category_allocated [OF assms(2), of "set_budget m b"]
      add_to_list_ceiling [OF assms(1)] start
    unfolding m' by simp
qed

text \<open>
  C4 on the setup tab. With the budget input at 1000, "Add to List" accepts the category
  "Rent" with a fixed limit of 500: the check of 500 against the remaining 1000 passes.
  With the budget input then at 100, "Finalize Setup" sets the budget to 100 and calls
  \<open>add_category\<close> for the listed category, which succeeds: the limits of the month sum
  to 500, above 100 + 1e-9.
\<close>

theorem finalize_setup_exceeds_budget:
  "add_to_list [] 1000 ''Rent'' Fixed 500 = Inr [rent_category] \<and>
   fst (add_category (set_budget (BudgetMonth_init ''2024-03'') 100) rent_category) \<and>
   finalize_setup (BudgetMonth_init ''2024-03'') [rent_category] 100 = Inr rent_month \<and>
   budget rent_month = Some 100 \<and>
   allocated_sar (map snd (categories rent_month)) 100 = 500 \<and>
   \<not> allocated_sar (map snd (categories rent_month)) 100 \<le> 100 + 1 / 10 ^ 9"
proof -
  have strip_rent: "strip ''Rent'' = ''Rent''"
    by (simp add: strip_def isspace_def)
  have a: "add_to_list [] 1000 ''Rent'' Fixed 500 = Inr [rent_category]"
    by (simp add: add_to_list_def allocated_sar_def strip_rent rent_category_def)
  have b: "add_category (set_budget (BudgetMonth_init ''2024-03'') 100) rent_category
             = (True, rent_month)"
    by (simp add: add_category_def set_budget_def BudgetMonth_init_def rent_category_def
          rent_month_def strip_rent has_key_def Let_def)
  have c: "finalize_setup (BudgetMonth_init ''2024-03'') [rent_category] 100 = Inr rent_month"
    by (simp add: finalize_setup_def b) (simp add: is_setup_def BudgetMonth_init_def)
  have d: "allocated_sar (map snd (categories rent_month)) 100 = 500"
    by (simp add: allocated_sar_def rent_month_def rent_category_def calc_limit_def)
  have e: "budget rent_month = Some 100"
    by (simp add: rent_month_def)
  show ?thesis
    using a c e by (simp add: b d)
qed

end
